theory Spec2Isabelle
  imports Complex_Main "HOL-Library.Sublist"
begin

section \<open>The IPC surface: ui/src/lib/tauri.ts\<close>

text \<open>
  The front end talks to the native core through Tauri commands (\<open>invoke\<close>) and
  receives events (\<open>listen\<close>). The TypeScript declarations are embedded as they
  are written: the string-literal union of \<open>RecordingState.status\<close> is a datatype
  with four constructors, the interfaces are records, a promise that settles is a value
  of a sum type (\<open>Inl\<close> the rejection, \<open>Inr\<close> the resolved value).
\<close>

datatype Status = Idle | Starting | Recording | Stopping

record RecordingState =
  status :: Status
  elapsed_secs :: nat
  file_path :: "string option"

text \<open>
  What an \<open>invoke\<close> promise rejects with. The named failures are the taxonomy of the
  specification (section 7); \<open>Other\<close> is any other rejection.
\<close>

datatype error =
    Busy | AlreadyRecording | NotRecording
  | NoEncoderAvailable | EncoderInitFailed | EncoderLostMidSession
  | FinalizationFailed
  | ReplayInactive | EmptyBuffer
  | Other string

text \<open>
  A command handler of the core takes the core's state and returns the settled promise
  together with the new state. The front end is verified for every core: the handlers
  are a parameter (\<open>'b Commands\<close>, a handler per command name).
\<close>

type_synonym ('a, 's) call = "'s \<Rightarrow> (error + 'a) \<times> 's"

record 'b Commands =
  start_recording :: "(unit, 'b) call"
  stop_recording :: "(string, 'b) call"
  get_recording_status :: "(RecordingState, 'b) call"
  toggle_replay_buffer :: "(bool, 'b) call"
  save_replay_clip :: "nat option \<Rightarrow> (string, 'b) call"
  get_replay_status :: "(bool, 'b) call"

text \<open>
  The channel: the commands invoked so far (name and arguments, oldest first) and the
  core behind it. \<open>invoke\<close> records the invocation and runs the handler.
\<close>

datatype arg = Undefined | Number nat | Str string

type_synonym invocation = "string \<times> (string \<times> arg) list"

record 'b Ipc =
  invoked :: "invocation list"
  backend :: 'b

definition invoke ::
  "string \<Rightarrow> (string \<times> arg) list \<Rightarrow> ('a, 'b) call \<Rightarrow> ('a, 'b Ipc) call" where
  "invoke cmd args handler ipc =
     (case handler (backend ipc) of
        (r, b') \<Rightarrow> (r, \<lparr>invoked = invoked ipc @ [(cmd, args)], backend = b'\<rparr>))"

definition startRecording :: "'b Commands \<Rightarrow> (unit, 'b Ipc) call" where
  "startRecording T = invoke ''start_recording'' [] (start_recording T)"

definition stopRecording :: "'b Commands \<Rightarrow> (string, 'b Ipc) call" where
  "stopRecording T = invoke ''stop_recording'' [] (stop_recording T)"

definition getRecordingStatus :: "'b Commands \<Rightarrow> (RecordingState, 'b Ipc) call" where
  "getRecordingStatus T = invoke ''get_recording_status'' [] (get_recording_status T)"

definition toggleReplayBuffer :: "'b Commands \<Rightarrow> (bool, 'b Ipc) call" where
  "toggleReplayBuffer T = invoke ''toggle_replay_buffer'' [] (toggle_replay_buffer T)"

definition seconds_arg :: "nat option \<Rightarrow> arg" where
  "seconds_arg seconds = (case seconds of None \<Rightarrow> Undefined | Some n \<Rightarrow> Number n)"

definition saveReplayClip :: "'b Commands \<Rightarrow> nat option \<Rightarrow> (string, 'b Ipc) call" where
  "saveReplayClip T seconds =
     invoke ''save_replay_clip'' [(''seconds'', seconds_arg seconds)] (save_replay_clip T seconds)"

definition getReplayStatus :: "'b Commands \<Rightarrow> (bool, 'b Ipc) call" where
  "getReplayStatus T = invoke ''get_replay_status'' [] (get_replay_status T)"

text \<open>The events the front end listens to, each with its payload.\<close>

datatype Event =
    RecordingStateChanged RecordingState
  | RecordingTimer nat
  | ReplayStateChanged bool
  | ReplaySaved string
  | ExportCompleted string

text \<open>
  The library's interface. The numeric metadata (\<open>number\<close> in TypeScript) is never
  inspected by the operations embedded here. Fields whose names are taken
  (\<open>id\<close> by HOL, \<open>file_path\<close> by \<open>RecordingState\<close>) carry a prime.
\<close>

record Recording =
  id' :: string
  title :: string
  file_path' :: string
  file_size :: nat
  duration' :: real
  resolution :: string
  fps :: real
  codec :: string
  container :: string
  source_type :: string
  game_name :: "string option"
  created_at :: string
  thumbnail_path :: "string option"

record 'b LibraryCommands =
  get_recordings :: "nat option \<Rightarrow> nat option \<Rightarrow> (Recording list, 'b) call"
  search_recordings :: "string \<Rightarrow> (Recording list, 'b) call"
  delete_recording :: "string \<Rightarrow> (unit, 'b) call"

definition deleteRecording :: "'b LibraryCommands \<Rightarrow> string \<Rightarrow> (unit, 'b Ipc) call" where
  "deleteRecording L ident =
     invoke ''delete_recording'' [(''id'', Str ident)] (delete_recording L ident)"


section \<open>The recording store: ui/src/stores/recording.ts\<close>

text \<open>
  \<open>useRecording\<close> holds three signals. \<open>listening\<close> says that the three listeners
  registered at the end of \<open>onMount\<close> are in place (the hook holds
  \<open>unlisten1\<close>, \<open>unlisten2\<close>, \<open>unlisten3\<close>).
\<close>

record Store =
  state :: RecordingState
  timer :: nat
  replayActive :: bool
  listening :: bool

definition useRecording :: Store where
  "useRecording =
     \<lparr>state = \<lparr>status = Idle, elapsed_secs = 0, file_path = None\<rparr>,
      timer = 0,
      replayActive = False,
      listening = False\<rparr>"

definition setState :: "RecordingState \<Rightarrow> Store \<Rightarrow> Store" where
  "setState s st = st\<lparr>state := s\<rparr>"

definition setTimer :: "nat \<Rightarrow> Store \<Rightarrow> Store" where
  "setTimer secs st = st\<lparr>timer := secs\<rparr>"

definition setReplayActive :: "bool \<Rightarrow> Store \<Rightarrow> Store" where
  "setReplayActive active st = st\<lparr>replayActive := active\<rparr>"

text \<open>
  \<open>onMount\<close>: an \<open>await\<close> that rejects ends the function there, with the signals
  set so far and no listener registered.
\<close>

definition onMount :: "'b Commands \<Rightarrow> Store \<Rightarrow> 'b Ipc \<Rightarrow> (error + unit) \<times> Store \<times> 'b Ipc" where
  "onMount T st ipc =
     (case getRecordingStatus T ipc of
        (Inl e, ipc1) \<Rightarrow> (Inl e, st, ipc1)
      | (Inr s, ipc1) \<Rightarrow>
          (case getReplayStatus T ipc1 of
             (Inl e, ipc2) \<Rightarrow> (Inl e, setState s st, ipc2)
           | (Inr replay, ipc2) \<Rightarrow>
               (Inr (), (setReplayActive replay (setState s st))\<lparr>listening := True\<rparr>, ipc2)))"

definition onCleanup :: "Store \<Rightarrow> Store" where
  "onCleanup st = st\<lparr>listening := False\<rparr>"

text \<open>
  An event reaches the callbacks of \<open>onMount\<close> only while they are registered; the
  hook registers none for \<open>replay-saved\<close> and \<open>export-completed\<close>.
\<close>

definition dispatch :: "Event \<Rightarrow> Store \<Rightarrow> Store" where
  "dispatch ev st =
     (if \<not> listening st then st
      else case ev of
             RecordingStateChanged s \<Rightarrow> setState s st
           | RecordingTimer secs \<Rightarrow> setTimer secs st
           | ReplayStateChanged active \<Rightarrow> setReplayActive active st
           | ReplaySaved p \<Rightarrow> st
           | ExportCompleted p \<Rightarrow> st)"

definition toggleRecord :: "'b Commands \<Rightarrow> Store \<Rightarrow> (unit, 'b Ipc) call" where
  "toggleRecord T st ipc =
     (if status (state st) = Recording then
        (case stopRecording T ipc of
           (Inl e, ipc') \<Rightarrow> (Inl e, ipc')
         | (Inr p, ipc') \<Rightarrow> (Inr (), ipc'))
      else if status (state st) = Idle then startRecording T ipc
      else (Inr (), ipc))"

definition toggleReplay :: "'b Commands \<Rightarrow> Store \<Rightarrow> 'b Ipc \<Rightarrow> (error + unit) \<times> Store \<times> 'b Ipc" where
  "toggleReplay T st ipc =
     (case toggleReplayBuffer T ipc of
        (Inl e, ipc') \<Rightarrow> (Inl e, st, ipc')
      | (Inr active, ipc') \<Rightarrow> (Inr (), setReplayActive active st, ipc'))"

definition saveReplay :: "'b Commands \<Rightarrow> nat option \<Rightarrow> (string, 'b Ipc) call" where
  "saveReplay T seconds = saveReplayClip T seconds"


section \<open>The recording state at run time\<close>

text \<open>
  The union type of \<open>RecordingState.status\<close> exists at compile time only: when the page
  runs, the status of a state that arrives from the core is a string, and nothing in
  \<open>lib/tauri.ts\<close> or in the store validates it. The lines of \<open>useRecording\<close> that
  write the \<open>state\<close> signal are embedded a second time with the status as that string
  (suffix \<open>_rt\<close>): the initial value of \<open>createSignal\<close>, \<open>setState(status)\<close> in
  \<open>onMount\<close> and the listener \<open>(s) => setState(s)\<close>. The two awaited replies of
  \<open>onMount\<close> are those of \<open>get_recording_status\<close> and \<open>get_replay_status\<close>.
\<close>

record RecordingState_rt =
  status_rt :: string
  elapsed_secs_rt :: nat
  file_path_rt :: "string option"

record Store_rt =
  state_rt :: RecordingState_rt
  listening_rt :: bool


definition setState_rt :: "RecordingState_rt \<Rightarrow> Store_rt \<Rightarrow> Store_rt" where
  "setState_rt s st = st\<lparr>state_rt := s\<rparr>"


definition onRecordingStateChanged_rt :: "RecordingState_rt \<Rightarrow> Store_rt \<Rightarrow> Store_rt" where
  "onRecordingStateChanged_rt s st = (if \<not> listening_rt st then st else setState_rt s st)"




text \<open>
  The four values of the declared type, and the typed reading of a state that arrives:
  defined exactly when its status is one of the four.
\<close>

definition status_values :: "string list" where
  "status_values = [''Idle'', ''Starting'', ''Recording'', ''Stopping'']"

definition status_of :: "string \<Rightarrow> Status option" where
  "status_of t =
     (if t = ''Idle'' then Some Idle
      else if t = ''Starting'' then Some Starting
      else if t = ''Recording'' then Some Recording
      else if t = ''Stopping'' then Some Stopping
      else None)"

definition typed :: "RecordingState_rt \<Rightarrow> RecordingState option" where
  "typed s =
     map_option
       (\<lambda>v. \<lparr>status = v, elapsed_secs = elapsed_secs_rt s, file_path = file_path_rt s\<rparr>)
       (status_of (status_rt s))"


section \<open>The recorder page: ui/src/pages/Recorder.tsx\<close>

text \<open>
  \<open>formatTime\<close> on a count of seconds. A JavaScript \<open>number\<close> holding a
  non-negative integer is a \<open>nat\<close>: \<open>Math.floor(a / b)\<close> is \<open>div\<close> and
  \<open>%\<close> is \<open>mod\<close> (exact on the safe integers). \<open>toString\<close> is the decimal
  rendering of \<open>Number.prototype.toString\<close>, \<open>padStart\<close> is
  \<open>String.prototype.padStart\<close>.
\<close>

definition digit_char :: "nat \<Rightarrow> char" where
  "digit_char d = ''0123456789'' ! d"

fun toString :: "nat \<Rightarrow> string" where
  "toString n =
     (if n < 10 then [digit_char n] else toString (n div 10) @ [digit_char (n mod 10)])"

declare toString.simps [simp del]

definition padStart :: "nat \<Rightarrow> string \<Rightarrow> string \<Rightarrow> string" where
  "padStart targetLength padString s =
     (if targetLength \<le> length s \<or> padString = [] then s
      else take (targetLength - length s)
             (concat (replicate (targetLength - length s) padString)) @ s)"

definition pad :: "nat \<Rightarrow> string" where
  "pad n = padStart 2 ''0'' (toString n)"

definition formatTime :: "nat \<Rightarrow> string" where
  "formatTime seconds =
     (let h = seconds div 3600;
          m = (seconds mod 3600) div 60;
          s = seconds mod 60
      in if h > 0 then pad h @ '':'' @ pad m @ '':'' @ pad s
         else pad m @ '':'' @ pad s)"





definition isRecording :: "Store \<Rightarrow> bool" where
  "isRecording st = (status (state st) = Recording)"

definition isIdle :: "Store \<Rightarrow> bool" where
  "isIdle st = (status (state st) = Idle)"

definition isBusy :: "Store \<Rightarrow> bool" where
  "isBusy st = (status (state st) = Starting \<or> status (state st) = Stopping)"

text \<open>
  The page's controls. A click on a disabled button runs no handler (\<open>None\<close>); a
  click on an enabled one runs its \<open>onClick\<close> and gives the settled promise.
  The record button is disabled while \<open>isBusy\<close>; the "Save Last 30s" button is
  disabled while \<open>replayActive\<close> is false and calls \<open>saveReplay(30)\<close>.
\<close>

definition record_timer :: "Store \<Rightarrow> string option" where
  "record_timer st = (if isRecording st then Some (formatTime (timer st)) else None)"

definition click_record :: "'b Commands \<Rightarrow> Store \<Rightarrow> 'b Ipc \<Rightarrow> (error + unit) option \<times> 'b Ipc" where
  "click_record T st ipc =
     (if isBusy st then (None, ipc)
      else (case toggleRecord T st ipc of (r, ipc') \<Rightarrow> (Some r, ipc')))"

definition replay_save_disabled :: "Store \<Rightarrow> bool" where
  "replay_save_disabled st = (\<not> replayActive st)"

definition click_replay_save :: "'b Commands \<Rightarrow> Store \<Rightarrow> 'b Ipc \<Rightarrow> (error + string) option \<times> 'b Ipc" where
  "click_replay_save T st ipc =
     (if replay_save_disabled st then (None, ipc)
      else (case saveReplay T (Some 30) ipc of (r, ipc') \<Rightarrow> (Some r, ipc')))"


section \<open>The library page\<close>

record LibraryPage =
  recordings :: "Recording list"
  query :: string

text \<open>
  \<open>handleDelete\<close>: when \<open>deleteRecording\<close> rejects, the function ends there and
  the list is not touched.
\<close>

definition handleDelete ::
  "'b LibraryCommands \<Rightarrow> string \<Rightarrow> LibraryPage \<Rightarrow> 'b Ipc \<Rightarrow> (error + unit) \<times> LibraryPage \<times> 'b Ipc" where
  "handleDelete L ident page ipc =
     (case deleteRecording L ident ipc of
        (Inl e, ipc') \<Rightarrow> (Inl e, page, ipc')
      | (Inr u, ipc') \<Rightarrow>
          (Inr (), page\<lparr>recordings := filter (\<lambda>r. id' r \<noteq> ident) (recordings page)\<rparr>, ipc'))"


section \<open>The replay ring buffer (specification, sections 3 and 4.5)\<close>

text \<open>
  Modelled from the spec: the ring buffer, the recording state machine and the replay
  controller belong to the native core (\<open>crates/clipforge-core\<close>, \<open>src-tauri\<close>),
  which is not among the sources; the definitions of this section and the next follow
  the specification's words. Durations, capacities and requested lengths are natural
  numbers of one time unit (the specification's scenarios use whole seconds).
\<close>

record ReplaySegment =
  seq_no :: nat
  start_offset :: nat
  duration :: nat
  location :: string
  created :: nat

record ReplayBuffer =
  segments :: "ReplaySegment list"
  capacity :: nat
  total_duration :: nat

text \<open>
  Modelled from the spec (3): a buffer is an ordered sequence of segments, a fixed
  capacity and a running total duration; a new one is empty.
\<close>

definition new_buffer :: "nat \<Rightarrow> ReplayBuffer" where
  "new_buffer C = \<lparr>segments = [], capacity = C, total_duration = 0\<rparr>"

text \<open>The cumulative duration of a sequence of segments.\<close>

definition cumulative :: "ReplaySegment list \<Rightarrow> nat" where
  "cumulative segs = sum_list (map duration segs)"

text \<open>
  Modelled from the spec: \<open>evict_to_capacity\<close> removes from the front (the oldest
  segment) while the total duration exceeds the capacity.
\<close>

function evict_to_capacity :: "ReplayBuffer \<Rightarrow> ReplayBuffer" where
  "evict_to_capacity b =
     (if capacity b < total_duration b then
        (case segments b of
           [] \<Rightarrow> b
         | s # rest \<Rightarrow>
             evict_to_capacity
               (b\<lparr>segments := rest, total_duration := total_duration b - duration s\<rparr>))
      else b)"
  by pat_completeness auto
termination
  by (relation "measure (\<lambda>b. length (segments b))") auto

declare evict_to_capacity.simps [simp del]

text \<open>
  Modelled from the spec: \<open>append\<close> adds a segment (\<open>add_segment\<close>), then evicts.
\<close>

definition add_segment :: "ReplaySegment \<Rightarrow> ReplayBuffer \<Rightarrow> ReplayBuffer" where
  "add_segment seg b =
     b\<lparr>segments := segments b @ [seg], total_duration := total_duration b + duration seg\<rparr>"

definition append_segment :: "ReplaySegment \<Rightarrow> ReplayBuffer \<Rightarrow> ReplayBuffer" where
  "append_segment seg b = evict_to_capacity (add_segment seg b)"

text \<open>A sequence of appends, the oldest segment first.\<close>

definition appends :: "ReplaySegment list \<Rightarrow> ReplayBuffer \<Rightarrow> ReplayBuffer" where
  "appends segs b = foldl (\<lambda>b seg. append_segment seg b) b segs"

text \<open>
  Modelled from the spec: \<open>snapshot_suffix(seconds)\<close> is the minimal trailing
  subsequence whose cumulative duration is at least \<open>seconds\<close> (the first such among
  the suffixes taken from the shortest to the longest), or the entire buffer when no
  suffix reaches \<open>seconds\<close>.
\<close>

definition snapshot_suffix :: "nat \<Rightarrow> ReplayBuffer \<Rightarrow> ReplaySegment list" where
  "snapshot_suffix seconds b =
     (case find (\<lambda>ys. seconds \<le> cumulative ys) (suffixes (segments b)) of
        Some ys \<Rightarrow> ys
      | None \<Rightarrow> segments b)"


section \<open>The recording state machine and the replay controller (specification, section 4)\<close>

text \<open>
  Modelled from the spec (4.1 to 4.3, 4.6): what the world outside the state machine
  decides. Whether encoder selection and pipeline initialisation succeed on a start
  (or which of the two fails), the file that finalisation produces on a stop (or that it
  fails), and the file a clip is assembled into.
\<close>

datatype Pipeline = Ready | NoEncoder | InitFailed

record World =
  pipeline :: Pipeline
  finalized :: "string option"
  clip :: "ReplaySegment list \<Rightarrow> string"

text \<open>
  Modelled from the spec (3, 4.6, 6): the core holds the recording session (status,
  elapsed counter, output path; its identity and start timestamp play no part here),
  the replay controller (active flag, ring buffer, configured capacity) and the
  notifications emitted so far, oldest first.
\<close>

record Core =
  session :: RecordingState
  replay_on :: bool
  ring :: "ReplayBuffer option"
  replay_capacity :: nat
  emitted :: "Event list"

definition emit :: "Event list \<Rightarrow> Core \<Rightarrow> Core" where
  "emit evs c = c\<lparr>emitted := emitted c @ evs\<rparr>"

definition transition :: "Status \<Rightarrow> string option \<Rightarrow> Core \<Rightarrow> Core" where
  "transition s p c =
     emit [RecordingStateChanged ((session c)\<lparr>status := s, file_path := p\<rparr>)]
       (c\<lparr>session := (session c)\<lparr>status := s, file_path := p\<rparr>\<rparr>)"

text \<open>
  Modelled from the spec (4.2): \<open>start()\<close> is valid only from \<open>Idle\<close>; it passes
  through \<open>Starting\<close> to \<open>Recording\<close> with the counter at 0, or back to \<open>Idle\<close>
  with the failure (\<open>NoEncoderAvailable\<close> or \<open>EncoderInitFailed\<close>); every transition
  emits one state-changed notification. From \<open>Starting\<close> and \<open>Stopping\<close> it fails with
  \<open>Busy\<close>, from \<open>Recording\<close> with \<open>AlreadyRecording\<close>, and changes nothing.
\<close>

definition start :: "World \<Rightarrow> (unit, Core) call" where
  "start w c =
     (case status (session c) of
        Idle \<Rightarrow>
          (let c1 = transition Starting None c in
           case pipeline w of
             Ready \<Rightarrow>
               (Inr (), transition Recording None (c1\<lparr>session := (session c1)\<lparr>elapsed_secs := 0\<rparr>\<rparr>))
           | NoEncoder \<Rightarrow> (Inl NoEncoderAvailable, transition Idle None c1)
           | InitFailed \<Rightarrow> (Inl EncoderInitFailed, transition Idle None c1))
      | Starting \<Rightarrow> (Inl Busy, c)
      | Recording \<Rightarrow> (Inl AlreadyRecording, c)
      | Stopping \<Rightarrow> (Inl Busy, c))"

text \<open>
  Modelled from the spec (4.2): \<open>stop()\<close> is valid only from \<open>Recording\<close>; it passes
  through \<open>Stopping\<close> to \<open>Idle\<close> and returns the finalized file path; a failed
  finalisation still ends in \<open>Idle\<close> and is surfaced as \<open>FinalizationFailed\<close>.
  From \<open>Idle\<close> it fails with \<open>NotRecording\<close>. The specification names no result for
  \<open>Starting\<close> and \<open>Stopping\<close>; of its three rejections \<open>Busy\<close> is the one for
  these states.
\<close>

definition stop :: "World \<Rightarrow> (string, Core) call" where
  "stop w c =
     (case status (session c) of
        Idle \<Rightarrow> (Inl NotRecording, c)
      | Starting \<Rightarrow> (Inl Busy, c)
      | Recording \<Rightarrow>
          (let c1 = transition Stopping None c in
           case finalized w of
             Some p \<Rightarrow> (Inr p, transition Idle (Some p) c1)
           | None \<Rightarrow> (Inl FinalizationFailed, transition Idle None c1))
      | Stopping \<Rightarrow> (Inl Busy, c))"

text \<open>
  Modelled from the spec (4.2, 6): one second passing. The counter increments once per
  second while in \<open>Recording\<close>, and the periodic notification carries its new value.
\<close>

definition tick :: "Core \<Rightarrow> Core" where
  "tick c =
     (if status (session c) = Recording then
        emit [RecordingTimer (elapsed_secs (session c) + 1)]
          (c\<lparr>session := (session c)\<lparr>elapsed_secs := elapsed_secs (session c) + 1\<rparr>\<rparr>)
      else c)"

text \<open>
  Modelled from the spec (4.6): \<open>toggle()\<close> returns the new active state. Activating
  creates the buffer with the configured capacity if not already present; deactivating
  releases all buffered segments.
\<close>

definition release :: "ReplayBuffer \<Rightarrow> ReplayBuffer" where
  "release b = b\<lparr>segments := [], total_duration := 0\<rparr>"

definition toggle :: "(bool, Core) call" where
  "toggle c =
     (if replay_on c then
        (Inr False,
         emit [ReplayStateChanged False] (c\<lparr>replay_on := False, ring := map_option release (ring c)\<rparr>))
      else
        (Inr True,
         emit [ReplayStateChanged True]
           (c\<lparr>replay_on := True,
              ring := Some (case ring c of None \<Rightarrow> new_buffer (replay_capacity c) | Some b \<Rightarrow> b)\<rparr>)))"

text \<open>
  Modelled from the spec (4.6): \<open>saveClip(seconds)\<close> fails with \<open>ReplayInactive\<close> if
  replay mode is off and with \<open>EmptyBuffer\<close> if the buffer has zero retained duration;
  otherwise it assembles the segments of \<open>snapshot_suffix\<close> (30 by default) into a file
  and returns its path.
\<close>

definition saveClip :: "World \<Rightarrow> nat option \<Rightarrow> (string, Core) call" where
  "saveClip w seconds c =
     (if \<not> replay_on c then (Inl ReplayInactive, c)
      else case ring c of
             None \<Rightarrow> (Inl EmptyBuffer, c)
           | Some b \<Rightarrow>
               if total_duration b = 0 then (Inl EmptyBuffer, c)
               else (let p = clip w (snapshot_suffix (case seconds of None \<Rightarrow> 30 | Some n \<Rightarrow> n) b)
                     in (Inr p, emit [ReplaySaved p] c)))"

text \<open>
  Modelled from the spec (4.4): a completed segment is appended to the ring buffer if
  replay mode is on.
\<close>

definition segment_completed :: "ReplaySegment \<Rightarrow> Core \<Rightarrow> Core" where
  "segment_completed seg c =
     (if replay_on c then c\<lparr>ring := map_option (append_segment seg) (ring c)\<rparr> else c)"

text \<open>
  Modelled from the spec: the command handlers of the desktop shell (\<open>src-tauri\<close>),
  each bound to the operation of the core it is named after.
\<close>

definition core_commands :: "World \<Rightarrow> Core Commands" where
  "core_commands w =
     \<lparr>start_recording = start w,
      stop_recording = stop w,
      get_recording_status = (\<lambda>c. (Inr (session c), c)),
      toggle_replay_buffer = toggle,
      save_replay_clip = saveClip w,
      get_replay_status = (\<lambda>c. (Inr (replay_on c), c))\<rparr>"


section \<open>The page on top of the core\<close>

text \<open>
  The recorder page run against the core of the specification, one step at a time: a
  user action on the page, a second passing, or a segment completed by the segment
  writer. Each handler runs to completion, then the notifications the core emitted
  meanwhile are dispatched to the store in order. Replay mode is toggled from the page
  only.
\<close>

datatype Action =
    Mount
  | ClickRecord
  | ClickReplayToggle
  | ClickReplaySave
  | Tick
  | SegmentCompleted ReplaySegment

definition deliver :: "Core \<Rightarrow> Store \<times> Core Ipc \<Rightarrow> Store \<times> Core Ipc" where
  "deliver before app =
     (case app of
        (st, ipc) \<Rightarrow>
          (fold dispatch (drop (length (emitted before)) (emitted (backend ipc))) st, ipc))"

definition act :: "World \<Rightarrow> Action \<Rightarrow> Store \<times> Core Ipc \<Rightarrow> Store \<times> Core Ipc" where
  "act w a app =
     (case app of
        (st, ipc) \<Rightarrow>
          (case a of
             Mount \<Rightarrow> snd (onMount (core_commands w) st ipc)
           | ClickRecord \<Rightarrow> (st, snd (click_record (core_commands w) st ipc))
           | ClickReplayToggle \<Rightarrow> snd (toggleReplay (core_commands w) st ipc)
           | ClickReplaySave \<Rightarrow> (st, snd (click_replay_save (core_commands w) st ipc))
           | Tick \<Rightarrow> (st, ipc\<lparr>backend := tick (backend ipc)\<rparr>)
           | SegmentCompleted seg \<Rightarrow> (st, ipc\<lparr>backend := segment_completed seg (backend ipc)\<rparr>)))"

definition step :: "World \<Rightarrow> Action \<Rightarrow> Store \<times> Core Ipc \<Rightarrow> Store \<times> Core Ipc" where
  "step w a app = deliver (backend (snd app)) (act w a app)"

text \<open>
  A run is a sequence of steps, each with what the world decides during it, from the
  launch of the page on a core.
\<close>

definition run :: "(World \<times> Action) list \<Rightarrow> Store \<times> Core Ipc \<Rightarrow> Store \<times> Core Ipc" where
  "run steps app = foldl (\<lambda>app (w, a). step w a app) app steps"

definition launch :: "Core \<Rightarrow> Store \<times> Core Ipc" where
  "launch c = (useRecording, \<lparr>invoked = [], backend = c\<rparr>)"



section \<open>Notions used in the statements and proofs\<close>

text \<open>A buffer is consistent when its running total is the cumulative duration of its segments.\<close>

definition consistent :: "ReplayBuffer \<Rightarrow> bool" where
  "consistent b = (total_duration b = cumulative (segments b))"







section \<open>Concrete values for the examples\<close>

definition example_recording :: "string \<Rightarrow> string \<Rightarrow> Recording" where
  "example_recording i t =
     \<lparr>id' = i, title = t, file_path' = ''/videos/'' @ t, file_size = 1024, duration' = 12,
      resolution = ''1920x1080'', fps = 60, codec = ''h264'', container = ''mkv'',
      source_type = ''screen'', game_name = None, created_at = ''2024-01-01'',
      thumbnail_path = None\<rparr>"

definition example_library :: "unit LibraryCommands" where
  "example_library =
     \<lparr>get_recordings = (\<lambda>limit offset b. (Inr [], b)),
      search_recordings = (\<lambda>q b. (Inr [], b)),
      delete_recording = (\<lambda>ident b. (Inr (), b))\<rparr>"

definition example_commands :: "unit Commands" where
  "example_commands =
     \<lparr>start_recording = (\<lambda>b. (Inr (), b)),
      stop_recording = (\<lambda>b. (Inr ''/videos/out.mkv'', b)),
      get_recording_status =
        (\<lambda>b. (Inr \<lparr>status = Recording, elapsed_secs = 7, file_path = None\<rparr>, b)),
      toggle_replay_buffer = (\<lambda>b. (Inr True, b)),
      save_replay_clip = (\<lambda>seconds b. (Inr ''/videos/clip.mkv'', b)),
      get_replay_status = (\<lambda>b. (Inr False, b))\<rparr>"

definition example_segment :: "nat \<Rightarrow> nat \<Rightarrow> ReplaySegment" where
  "example_segment i d =
     \<lparr>seq_no = i, start_offset = i * d, duration = d, location = ''/dev/shm/clipforge-replay'',
      created = i * d\<rparr>"

definition example_world :: World where
  "example_world =
     \<lparr>pipeline = Ready,
      finalized = Some ''/videos/recording.mkv'',
      clip = (\<lambda>segs. ''/videos/replay.mkv'')\<rparr>"

definition example_core :: Core where
  "example_core =
     \<lparr>session = \<lparr>status = Idle, elapsed_secs = 0, file_path = None\<rparr>,
      replay_on = False,
      ring = None,
      replay_capacity = 30,
      emitted = []\<rparr>"

definition example_buffer :: ReplayBuffer where
  "example_buffer =
     \<lparr>segments = map (\<lambda>i. example_segment i 5) [0..<5], capacity = 30, total_duration = 25\<rparr>"

definition example_steps :: "(World \<times> Action) list" where
  "example_steps =
     map (Pair example_world)
       [Mount, ClickReplayToggle, SegmentCompleted (example_segment 0 2)]"




section \<open>C1: the recording toggle\<close>

lemma invoked_invoke:
  "invoked (snd (invoke cmd args h ipc)) = invoked ipc @ [(cmd, args)]"
  by (simp add: invoke_def split: prod.splits)


lemma toggleRecord_invoked:
  "invoked (snd (toggleRecord T st ipc)) =
     invoked ipc @
       (case status (state st) of
          Idle \<Rightarrow> [(''start_recording'', [])]
        | Starting \<Rightarrow> []
        | Recording \<Rightarrow> [(''stop_recording'', [])]
        | Stopping \<Rightarrow> [])"
proof (cases "status (state st)")
  case Idle
  then show ?thesis
    by (simp add: toggleRecord_def startRecording_def invoked_invoke)
next
  case Starting
  then show ?thesis by (simp add: toggleRecord_def)
next
  case Recording
  have "invoked (snd (stopRecording T ipc)) = invoked ipc @ [(''stop_recording'', [])]"
    by (simp add: stopRecording_def invoked_invoke)
  with Recording show ?thesis
    by (auto simp add: toggleRecord_def split: prod.splits sum.splits)
next
  case Stopping
  then show ?thesis by (simp add: toggleRecord_def)
qed

text \<open>
  C1. For every recording state, \<open>toggleRecord\<close> invokes \<open>stop_recording\<close> exactly
  when the status is \<open>Recording\<close>, \<open>start_recording\<close> exactly when it is \<open>Idle\<close>,
  and neither when it is \<open>Starting\<close> or \<open>Stopping\<close>: the commands it adds to the
  channel are determined by the status alone, and in \<open>Starting\<close> and \<open>Stopping\<close> it
  resolves at once and leaves the channel and the core as they were. This holds for
  every core behind the commands.
\<close>

theorem toggleRecord_respects_status:
  "invoked (snd (toggleRecord T st ipc)) =
     invoked ipc @
       (case status (state st) of
          Idle \<Rightarrow> [(''start_recording'', [])]
        | Starting \<Rightarrow> []
        | Recording \<Rightarrow> [(''stop_recording'', [])]
        | Stopping \<Rightarrow> [])
   \<and> ((''stop_recording'', []) \<in>
          set (drop (length (invoked ipc)) (invoked (snd (toggleRecord T st ipc))))
        = (status (state st) = Recording))
   \<and> ((''start_recording'', []) \<in>
          set (drop (length (invoked ipc)) (invoked (snd (toggleRecord T st ipc))))
        = (status (state st) = Idle))
   \<and> (status (state st) = Starting \<or> status (state st) = Stopping
        \<longrightarrow> toggleRecord T st ipc = (Inr (), ipc))"
proof -
  note inv = toggleRecord_invoked[of T st ipc]
  have stop_iff: "((''stop_recording'', []) \<in>
          set (drop (length (invoked ipc)) (invoked (snd (toggleRecord T st ipc)))))
        = (status (state st) = Recording)"
    by (cases "status (state st)") (simp_all add: inv)
  have start_iff: "((''start_recording'', []) \<in>
          set (drop (length (invoked ipc)) (invoked (snd (toggleRecord T st ipc)))))
        = (status (state st) = Idle)"
    by (cases "status (state st)") (simp_all add: inv)
  have busy: "status (state st) = Starting \<or> status (state st) = Stopping
        \<longrightarrow> toggleRecord T st ipc = (Inr (), ipc)"
    by (auto simp add: toggleRecord_def)
  from inv stop_iff start_iff busy show ?thesis by (intro conjI)
qed

theorem toggleRecord_respects_status_witness:
  "toggleRecord example_commands
     (useRecording\<lparr>state := \<lparr>status = Starting, elapsed_secs = 0, file_path = None\<rparr>\<rparr>)
     \<lparr>invoked = [], backend = ()\<rparr>
   = (Inr (), \<lparr>invoked = [], backend = ()\<rparr>)"
proof -
  let ?st = "useRecording\<lparr>state := \<lparr>status = Starting, elapsed_secs = 0, file_path = None\<rparr>\<rparr>"
  have "status (state ?st) = Starting \<or> status (state ?st) = Stopping"
    by simp
  with toggleRecord_respects_status[where T = example_commands and st = ?st
      and ipc = "\<lparr>invoked = [], backend = ()\<rparr>"]
  show ?thesis by blast
qed

lemma toggleRecord_examples:
  "invoked (snd (toggleRecord example_commands
      (useRecording\<lparr>state := \<lparr>status = Recording, elapsed_secs = 3, file_path = None\<rparr>\<rparr>)
      \<lparr>invoked = [], backend = ()\<rparr>)) = [(''stop_recording'', [])]"
  "invoked (snd (toggleRecord example_commands useRecording \<lparr>invoked = [], backend = ()\<rparr>))
     = [(''start_recording'', [])]"
  by (simp_all add: toggleRecord_def stopRecording_def startRecording_def invoke_def
      example_commands_def useRecording_def)

text \<open>
  Against the core of the specification: when the store's status is the session's
  status, the toggle is never rejected as a misuse of the state machine.
\<close>

lemma toggleRecord_never_misuse:
  assumes "status (state st) = status (session (backend ipc))"
  shows "fst (toggleRecord (core_commands w) st ipc)
           \<notin> {Inl Busy, Inl AlreadyRecording, Inl NotRecording}"
  using assms
  by (cases "status (state st)"; cases "pipeline w"; cases "finalized w")
     (auto simp: toggleRecord_def startRecording_def stopRecording_def invoke_def core_commands_def
        start_def stop_def Let_def)


section \<open>C2: the ring buffer's bound\<close>

lemma consistent_new_buffer: "consistent (new_buffer C)"
  by (simp add: consistent_def new_buffer_def cumulative_def)

lemma consistent_add_segment: "consistent b \<Longrightarrow> consistent (add_segment seg b)"
  by (simp add: consistent_def add_segment_def cumulative_def)

lemma evict_to_capacity_bound:
  "consistent b \<Longrightarrow>
     consistent (evict_to_capacity b)
     \<and> capacity (evict_to_capacity b) = capacity b
     \<and> total_duration (evict_to_capacity b) \<le> capacity b
     \<and> suffix (segments (evict_to_capacity b)) (segments b)"
proof (induction b rule: evict_to_capacity.induct)
  case (1 b)
  show ?case
  proof (cases "capacity b < total_duration b")
    case False
    with "1.prems" show ?thesis
      by (subst (1 2 3 4) evict_to_capacity.simps) simp
  next
    case over: True
    show ?thesis
    proof (cases "segments b")
      case Nil
      with "1.prems" over show ?thesis
        by (simp add: consistent_def cumulative_def)
    next
      case (Cons s rest)
      let ?b' = "b\<lparr>segments := rest, total_duration := total_duration b - duration s\<rparr>"
      have c': "consistent ?b'"
        using "1.prems" Cons by (simp add: consistent_def cumulative_def)
      have unfold: "evict_to_capacity b = evict_to_capacity ?b'"
        using over Cons by (subst evict_to_capacity.simps) simp
      from "1.IH"[OF over Cons c'] show ?thesis
        unfolding unfold using Cons by (auto simp: suffix_Cons)
    qed
  qed
qed

lemma append_segment_bound:
  assumes "consistent b"
  shows "consistent (append_segment seg b)"
    and "capacity (append_segment seg b) = capacity b"
    and "total_duration (append_segment seg b) \<le> capacity b"
  using evict_to_capacity_bound[OF consistent_add_segment[OF assms, of seg]]
  by (simp_all add: append_segment_def add_segment_def)

lemma appends_snoc: "appends (segs @ [seg]) b = append_segment seg (appends segs b)"
  by (simp add: appends_def)

lemma appends_bound:
  assumes "consistent b" and "total_duration b \<le> capacity b"
  shows "consistent (appends segs b)
         \<and> capacity (appends segs b) = capacity b
         \<and> total_duration (appends segs b) \<le> capacity b"
proof (induction segs rule: rev_induct)
  case Nil
  from assms show ?case by (simp add: appends_def)
next
  case (snoc seg segs)
  then show ?case
    using append_segment_bound[of "appends segs b" seg] by (simp add: appends_snoc)
qed

lemma appends_new_buffer:
  "consistent (appends segs (new_buffer C))
   \<and> capacity (appends segs (new_buffer C)) = C
   \<and> total_duration (appends segs (new_buffer C)) \<le> C"
  using appends_bound[of "new_buffer C" segs]
  by (simp add: consistent_new_buffer) (simp add: new_buffer_def)

text \<open>
  C2. For all capacities \<open>C\<close> and segment durations \<open>L\<close>: after any sequence of appends
  of segments that last at most \<open>L\<close> to a new buffer of capacity \<open>C\<close>, the buffer's total
  duration (its running total, which is the cumulative duration of the retained
  segments) is at most \<open>C + L\<close>; this holds also in the middle of every append, when the
  segment has been added and nothing has been evicted yet.
\<close>

theorem ring_buffer_total_bounded:
  assumes "\<forall>x \<in> set segs. duration x \<le> L"
  shows "total_duration (appends segs (new_buffer C)) \<le> C + L
       \<and> cumulative (segments (appends segs (new_buffer C))) \<le> C + L
       \<and> (\<forall>pre x post. segs = pre @ x # post \<longrightarrow>
            total_duration (add_segment x (appends pre (new_buffer C))) \<le> C + L)"
proof -
  have after: "total_duration (appends segs (new_buffer C)) \<le> C"
    using appends_new_buffer[of segs C] by simp
  have same: "cumulative (segments (appends segs (new_buffer C)))
                = total_duration (appends segs (new_buffer C))"
    using appends_new_buffer[of segs C] by (simp add: consistent_def)
  have mid: "total_duration (add_segment x (appends pre (new_buffer C))) \<le> C + L"
    if "segs = pre @ x # post" for pre x post
  proof -
    from that assms have "duration x \<le> L" by simp
    moreover have "total_duration (appends pre (new_buffer C)) \<le> C"
      using appends_new_buffer[of pre C] by simp
    ultimately show ?thesis by (simp add: add_segment_def)
  qed
  from after same mid show ?thesis by auto
qed

theorem ring_buffer_total_bounded_witness:
  "total_duration (appends (map (\<lambda>i. example_segment i 2) [0..<4]) (new_buffer 5)) \<le> 5 + 2
   \<and> total_duration
        (add_segment (example_segment 3 2)
           (appends (map (\<lambda>i. example_segment i 2) [0..<3]) (new_buffer 5))) \<le> 5 + 2"
proof -
  have short: "\<forall>x \<in> set (map (\<lambda>i. example_segment i 2) [0..<4]). duration x \<le> 2"
    by (simp add: example_segment_def)
  have split: "map (\<lambda>i. example_segment i 2) [0..<4] =
                 map (\<lambda>i. example_segment i 2) [0..<3] @ example_segment 3 2 # []"
    by code_simp
  from ring_buffer_total_bounded[OF short, of 5] split show ?thesis by blast
qed

text \<open>
  Scenario A of the specification: capacity 30, segments of 2; after 20 appends the
  buffer retains the 15 most recent segments (a total of 30), having evicted 5.
\<close>

lemma scenario_A:
  "map seq_no (segments (appends (map (\<lambda>i. example_segment i 2) [0..<20]) (new_buffer 30)))
     = [5..<20]
   \<and> total_duration (appends (map (\<lambda>i. example_segment i 2) [0..<20]) (new_buffer 30)) = 30"
  by code_simp


section \<open>C3: the snapshot of a suffix\<close>
















text \<open>
  Scenarios C and D of the specification: the buffer holds 25; a request for 10 gives
  the most recent 10, a request for 40 gives all 25.
\<close>

lemma scenario_C_D:
  "map seq_no (snapshot_suffix 10 example_buffer) = [3, 4]
   \<and> cumulative (snapshot_suffix 10 example_buffer) = 10
   \<and> map seq_no (snapshot_suffix 40 example_buffer) = [0, 1, 2, 3, 4]
   \<and> cumulative (snapshot_suffix 40 example_buffer) = 25"
  by code_simp


section \<open>C4: the status values\<close>

text \<open>
  In the typed embedding the status is one of four distinct values by its declaration;
  this says nothing of what the store does with a state that arrives.
\<close>

lemma Status_declared:
  "(UNIV :: Status set) = {Idle, Starting, Recording, Stopping}
   \<and> distinct [Idle, Starting, Recording, Stopping]"
proof -
  have "x \<in> {Idle, Starting, Recording, Stopping}" for x :: Status
    by (cases x) simp_all
  then show ?thesis by auto
qed

text \<open>
  The typed reading of an arriving state exists exactly when its status is one of the
  four, and on such states the run-time store does what the typed store does.
\<close>

lemma typed_iff: "(typed s \<noteq> None) = (status_rt s \<in> set status_values)"
  by (simp add: typed_def status_of_def status_values_def)

lemma typed_setState:
  assumes "typed s = Some t" and "typed (state_rt st_rt) = Some (state st)"
  shows "typed (state_rt (setState_rt s st_rt)) = Some (state (setState t st))"
  using assms by (simp add: setState_rt_def setState_def)

lemma typed_dispatch:
  assumes "typed s = Some t" and "typed (state_rt st_rt) = Some (state st)"
    and "listening_rt st_rt = listening st"
  shows "typed (state_rt (onRecordingStateChanged_rt s st_rt))
           = Some (state (dispatch (RecordingStateChanged t) st))
         \<and> listening_rt (onRecordingStateChanged_rt s st_rt)
           = listening (dispatch (RecordingStateChanged t) st)"
  using assms
  by (simp add: onRecordingStateChanged_rt_def dispatch_def setState_rt_def setState_def)








section \<open>C5: the replay toggle\<close>

text \<open>
  C5. Whenever the \<open>toggle_replay_buffer\<close> command returns a boolean, \<open>toggleReplay\<close>
  sets \<open>replayActive\<close> to exactly that boolean: it invokes the command once, changes no
  other signal, and resolves. This holds for every core behind the command.
\<close>

theorem toggleReplay_sets_flag:
  assumes "toggle_replay_buffer T (backend ipc) = (Inr active, b')"
  shows "toggleReplay T st ipc =
           (Inr (), st\<lparr>replayActive := active\<rparr>,
            \<lparr>invoked = invoked ipc @ [(''toggle_replay_buffer'', [])], backend = b'\<rparr>)
         \<and> replayActive (fst (snd (toggleReplay T st ipc))) = active"
  using assms
  by (simp add: toggleReplay_def toggleReplayBuffer_def invoke_def setReplayActive_def)

theorem toggleReplay_sets_flag_witness:
  "replayActive
     (fst (snd (toggleReplay example_commands useRecording \<lparr>invoked = [], backend = ()\<rparr>)))
   = True"
proof -
  have "toggle_replay_buffer example_commands (backend \<lparr>invoked = [], backend = ()\<rparr>)
          = (Inr True, ())"
    by (simp add: example_commands_def)
  from toggleReplay_sets_flag[OF this] show ?thesis by simp
qed

text \<open>When the command is rejected, so is \<open>toggleReplay\<close>, and no signal changes.\<close>

lemma toggleReplay_rejected:
  assumes "toggle_replay_buffer T (backend ipc) = (Inl e, b')"
  shows "toggleReplay T st ipc =
           (Inl e, st, \<lparr>invoked = invoked ipc @ [(''toggle_replay_buffer'', [])], backend = b'\<rparr>)"
  using assms
  by (simp add: toggleReplay_def toggleReplayBuffer_def invoke_def)

text \<open>
  Against the core of the specification, the value returned is the new active state:
  the negation of the old one.
\<close>

lemma toggleReplay_core:
  "toggleReplay (core_commands w) st ipc =
     (Inr (), st\<lparr>replayActive := \<not> replay_on (backend ipc)\<rparr>,
      \<lparr>invoked = invoked ipc @ [(''toggle_replay_buffer'', [])],
       backend = snd (toggle (backend ipc))\<rparr>)
   \<and> replay_on (snd (toggle (backend ipc))) = (\<not> replay_on (backend ipc))"
  by (simp add: toggleReplay_def toggleReplayBuffer_def invoke_def setReplayActive_def
      core_commands_def toggle_def emit_def)


section \<open>C6: the save control\<close>












text \<open>
  Scenario E of the specification, and the same run as above continued by the click:
  with replay off a save fails with \<open>ReplayInactive\<close>; from the page, the save of the
  buffered segment resolves with the clip's path.
\<close>

lemma scenario_E: "fst (saveClip example_world (Some 10) example_core) = Inl ReplayInactive"
  by code_simp

lemma save_from_page:
  "fst (click_replay_save (core_commands example_world)
         (fst (run example_steps (launch example_core)))
         (snd (run example_steps (launch example_core))))
   = Some (Inr ''/videos/replay.mkv'')"
  by code_simp


section \<open>C7: what the commands resolve with\<close>











section \<open>C8: the elapsed-time signal\<close>








lemma tick_outside_Recording: "status (session c) \<noteq> Recording \<Longrightarrow> tick c = c"
  by (simp add: tick_def)

text \<open>
  Against the core of the specification (scenario B): mounted on an idle core, a click
  on the record button starts the session, the store sees \<open>Starting\<close> then
  \<open>Recording\<close>, and after \<open>n\<close> seconds in \<open>Recording\<close> both the core's counter and the
  store's signal are \<open>n\<close>.
\<close>

lemma run_snoc: "run (steps @ [(w, a)]) app = step w a (run steps app)"
  by (simp add: run_def)

lemma step_Tick_recording:
  assumes "listening st" and "status (session (backend ipc)) = Recording"
  shows "step w Tick (st, ipc) =
           (st\<lparr>timer := elapsed_secs (session (backend ipc)) + 1\<rparr>,
            ipc\<lparr>backend := tick (backend ipc)\<rparr>)"
  using assms
  by (simp add: step_def act_def deliver_def tick_def emit_def dispatch_def setTimer_def)

lemma recording_started:
  assumes "status (session c) = Idle" and "pipeline w = Ready"
  shows "\<exists>st ipc. run [(w0, Mount), (w, ClickRecord)] (launch c) = (st, ipc)
           \<and> listening st \<and> timer st = 0
           \<and> state st = \<lparr>status = Recording, elapsed_secs = 0, file_path = None\<rparr>
           \<and> session (backend ipc) = \<lparr>status = Recording, elapsed_secs = 0, file_path = None\<rparr>
           \<and> emitted (backend ipc) = emitted c @
                [RecordingStateChanged ((session c)\<lparr>status := Starting, file_path := None\<rparr>),
                 RecordingStateChanged \<lparr>status = Recording, elapsed_secs = 0, file_path = None\<rparr>]"
  using assms
  by (simp add: run_def step_def act_def deliver_def launch_def useRecording_def onMount_def
      getRecordingStatus_def getReplayStatus_def invoke_def core_commands_def setState_def
      setReplayActive_def click_record_def isBusy_def toggleRecord_def startRecording_def
      start_def Let_def transition_def emit_def dispatch_def)

lemma recording_counts:
  assumes "status (session c) = Idle" and "pipeline w = Ready"
  shows "\<exists>st ipc. run ([(w0, Mount), (w, ClickRecord)] @ replicate n (w1, Tick)) (launch c) = (st, ipc)
           \<and> listening st \<and> timer st = n
           \<and> status (state st) = Recording
           \<and> session (backend ipc) = \<lparr>status = Recording, elapsed_secs = n, file_path = None\<rparr>"
proof (induction n)
  case 0
  from recording_started[OF assms, of w0] show ?case by auto
next
  case (Suc n)
  then obtain st ipc where
    r: "run ([(w0, Mount), (w, ClickRecord)] @ replicate n (w1, Tick)) (launch c) = (st, ipc)"
    and l: "listening st" and s: "status (state st) = Recording"
    and c: "session (backend ipc) = \<lparr>status = Recording, elapsed_secs = n, file_path = None\<rparr>"
    by blast
  have "replicate (Suc n) (w1, Tick) = replicate n (w1, Tick) @ [(w1, Tick)]"
    by (simp add: replicate_append_same)
  then have "run ([(w0, Mount), (w, ClickRecord)] @ replicate (Suc n) (w1, Tick)) (launch c)
               = step w1 Tick (st, ipc)"
    using run_snoc[of "[(w0, Mount), (w, ClickRecord)] @ replicate n (w1, Tick)" w1 Tick "launch c"] r
    by simp
  also have "\<dots> = (st\<lparr>timer := Suc n\<rparr>, ipc\<lparr>backend := tick (backend ipc)\<rparr>)"
    using step_Tick_recording[OF l, of ipc w1] c by simp
  finally show ?case
    using l s c by (simp add: tick_def emit_def)
qed


section \<open>C9: rendering the elapsed time\<close>





















lemma formatTime_examples:
  "formatTime 0 = ''00:00''"
  "formatTime 59 = ''00:59''"
  "formatTime 3600 = ''01:00:00''"
  "formatTime 3661 = ''01:01:01''"
  by (simp_all add: formatTime_def pad_def padStart_def digit_char_def toString.simps)


section \<open>C10: deleting from the library list\<close>

lemma count_list_filter:
  "count_list (filter P xs) x = (if P x then count_list xs x else 0)"
  by (induction xs) auto

text \<open>
  C10. When \<open>handleDelete(id)\<close> completes (the \<open>delete_recording\<close> command has
  resolved), the displayed list is the previous list without the entries whose id is the
  argument: every other entry is kept, as often as it occurred and in the same relative
  order, and nothing else of the page changes. The command invoked is
  \<open>delete_recording\<close> with that id.
\<close>

theorem handleDelete_removes_target_only:
  assumes "handleDelete L ident page ipc = (Inr (), page', ipc')"
  shows "recordings page' = filter (\<lambda>r. id' r \<noteq> ident) (recordings page)
       \<and> subseq (recordings page') (recordings page)
       \<and> (\<forall>r. count_list (recordings page') r =
                 (if id' r = ident then 0 else count_list (recordings page) r))
       \<and> query page' = query page
       \<and> invoked ipc' = invoked ipc @ [(''delete_recording'', [(''id'', Str ident)])]"
proof -
  obtain r b' where h: "delete_recording L ident (backend ipc) = (r, b')"
    by (cases "delete_recording L ident (backend ipc)")
  from assms h have r: "r = Inr ()"
    by (auto simp: handleDelete_def deleteRecording_def invoke_def split: sum.splits)
  from assms h r have page': "page' = page\<lparr>recordings := filter (\<lambda>r. id' r \<noteq> ident) (recordings page)\<rparr>"
    and ipc': "ipc' = \<lparr>invoked = invoked ipc @ [(''delete_recording'', [(''id'', Str ident)])], backend = b'\<rparr>"
    by (auto simp: handleDelete_def deleteRecording_def invoke_def)
  show ?thesis
    by (simp add: page' ipc' count_list_filter)
qed

text \<open>When the command is rejected, so is \<open>handleDelete\<close>, and the page is as it was.\<close>

lemma handleDelete_rejected:
  assumes "delete_recording L ident (backend ipc) = (Inl e, b')"
  shows "handleDelete L ident page ipc =
           (Inl e, page,
            \<lparr>invoked = invoked ipc @ [(''delete_recording'', [(''id'', Str ident)])], backend = b'\<rparr>)"
  using assms by (simp add: handleDelete_def deleteRecording_def invoke_def)

theorem handleDelete_removes_target_only_witness:
  "recordings (fst (snd (handleDelete example_library ''b''
       \<lparr>recordings = [example_recording ''a'' ''one'', example_recording ''b'' ''two'',
                      example_recording ''c'' ''three'', example_recording ''b'' ''four''],
        query = ''o''\<rparr>
       \<lparr>invoked = [], backend = ()\<rparr>)))
   = [example_recording ''a'' ''one'', example_recording ''c'' ''three'']"
proof -
  let ?page = "\<lparr>recordings = [example_recording ''a'' ''one'', example_recording ''b'' ''two'',
                      example_recording ''c'' ''three'', example_recording ''b'' ''four''],
        query = ''o''\<rparr>"
  let ?ipc = "\<lparr>invoked = [], backend = ()\<rparr>"
  let ?page' = "?page\<lparr>recordings := [example_recording ''a'' ''one'', example_recording ''c'' ''three'']\<rparr>"
  let ?ipc' = "\<lparr>invoked = [(''delete_recording'', [(''id'', Str ''b'')])], backend = ()\<rparr>"
  have run: "handleDelete example_library ''b'' ?page ?ipc = (Inr (), ?page', ?ipc')"
    by (simp add: handleDelete_def deleteRecording_def invoke_def example_library_def
        example_recording_def)
  have "recordings ?page' = filter (\<lambda>r. id' r \<noteq> ''b'') (recordings ?page)"
    using handleDelete_removes_target_only[OF run] by (rule conjunct1)
  then show ?thesis
    by (simp only: run fst_conv snd_conv) simp
qed

end
